theory Spec2Isabelle
  imports Complex_Main "HOL-Library.Multiset"
begin

section \<open>Blackjack with a tabular Q-learning agent\<close>

text \<open>
  A shallow embedding of \<^verbatim>\<open>blackjack_ml_classes_and_functions.py\<close>.
  Classes are records, methods are functions that take the object and return the
  updated object, a raised exception is the left injection of a sum, and Python's
  floats are modelled as reals (rounding is not modelled). The calls to the
  \<^verbatim>\<open>random\<close> module are resolved by explicit arguments that hold the values the
  generator returned.
\<close>

subsection \<open>Exceptions\<close>

text \<open>
  \<^verbatim>\<open>IndexError\<close> is raised by \<^verbatim>\<open>list.pop(0)\<close> on an empty list and by
  \<^verbatim>\<open>hand[0]\<close> on an empty hand, \<^verbatim>\<open>ValueError\<close> by \<^verbatim>\<open>int(rank)\<close> on a
  rank that is no integer literal, \<^verbatim>\<open>UnboundLocalError\<close> by reading a local variable
  that was never assigned.
\<close>

datatype py_error = IndexError | ValueError | UnboundLocalError

subsection \<open>Cards\<close>

text \<open>
  The four suit strings of \<^verbatim>\<open>Deck.__init__\<close> are the one-character strings
  U+2660, U+2661, U+2662 and U+2663; no code inspects them, so they are a datatype
  here. Ranks are ASCII strings, as the program writes them.
\<close>

datatype Suit = Spades | Hearts | Diamonds | Clubs

record Card =
  rank :: string
  suit :: Suit

subsection \<open>The string operations used on ranks\<close>

definition is_alpha_char :: "char \<Rightarrow> bool" where
  "is_alpha_char c =
     (let n = (of_char c :: nat) in (65 \<le> n \<and> n \<le> 90) \<or> (97 \<le> n \<and> n \<le> 122))"

text \<open>\<^verbatim>\<open>str.isalpha()\<close>: the string is not empty and all its characters are letters.\<close>

definition isalpha :: "string \<Rightarrow> bool" where
  "isalpha s = (s \<noteq> [] \<and> list_all is_alpha_char s)"

definition is_digit_char :: "char \<Rightarrow> bool" where
  "is_digit_char c = (let n = (of_char c :: nat) in 48 \<le> n \<and> n \<le> 57)"

definition digit_val :: "char \<Rightarrow> nat" where
  "digit_val c = of_char c - 48"

text \<open>
  The blanks that \<^verbatim>\<open>int()\<close> skips around an ASCII literal: the space and the
  characters 9 to 13 (tab, line feed, vertical tab, form feed, carriage return).
\<close>

definition is_space_char :: "char \<Rightarrow> bool" where
  "is_space_char c =
     (let n = (of_char c :: nat) in n = 32 \<or> (9 \<le> n \<and> n \<le> 13))"

text \<open>
  The digits of a decimal literal, most significant first; a single underscore may
  stand between two digits. The flag says that the previous character was a digit.
\<close>

fun parse_digits :: "string \<Rightarrow> nat \<Rightarrow> bool \<Rightarrow> nat option" where
  "parse_digits [] acc prev = (if prev then Some acc else None)"
| "parse_digits (c # cs) acc prev =
     (if is_digit_char c then parse_digits cs (10 * acc + digit_val c) True
      else if c = CHR ''_'' \<and> prev then parse_digits cs acc False
      else None)"

definition strip :: "string \<Rightarrow> string" where
  "strip s = dropWhile is_space_char (rev (dropWhile is_space_char (rev s)))"

text \<open>
  \<^verbatim>\<open>int(s)\<close> on an ASCII string: surrounding white space is dropped, then an
  optional sign and a decimal literal follow. \<open>None\<close> stands for \<^verbatim>\<open>ValueError\<close>.
\<close>

definition py_int :: "string \<Rightarrow> int option" where
  "py_int s =
     (case strip s of
        [] \<Rightarrow> None
      | c # cs \<Rightarrow>
          if c = CHR ''-'' then map_option (\<lambda>n. - int n) (parse_digits cs 0 False)
          else if c = CHR ''+'' then map_option int (parse_digits cs 0 False)
          else map_option int (parse_digits (c # cs) 0 False))"

subsection \<open>Deck\<close>

record Deck =
  cards :: "Card list"

definition suits :: "Suit list" where
  "suits = [Spades, Hearts, Diamonds, Clubs]"

definition ranks :: "string list" where
  "ranks = [''2'', ''3'', ''4'', ''5'', ''6''] @ [''7'', ''8'', ''9'', ''10''] @
            [''J'', ''Q'', ''K'', ''A'']"

text \<open>\<^verbatim>\<open>[Card(rank, suit) for suit in suits for rank in ranks]\<close>\<close>

definition Deck_init :: "Deck" where
  "Deck_init =
     \<lparr>cards = concat (map (\<lambda>s. map (\<lambda>r. \<lparr>rank = r, suit = s\<rparr>) ranks) suits)\<rparr>"

text \<open>
  \<^verbatim>\<open>random.shuffle(self.cards)\<close> runs, for \<open>i\<close> from \<open>len - 1\<close> down to \<open>1\<close>,
  \<^verbatim>\<open>j = randbelow(i + 1); x[i], x[j] = x[j], x[i]\<close>. The argument \<open>rj\<close> gives the
  number drawn at index \<open>i\<close>; it is reduced to the range of \<^verbatim>\<open>randbelow\<close>.
\<close>

fun shuffle_from :: "(nat \<Rightarrow> nat) \<Rightarrow> nat \<Rightarrow> 'a list \<Rightarrow> 'a list" where
  "shuffle_from rj 0 x = x"
| "shuffle_from rj (Suc i) x =
     (let j = rj (Suc i) mod (Suc i + 1)
      in shuffle_from rj i (x[Suc i := x ! j, j := x ! Suc i]))"

definition shuffle_deck :: "(nat \<Rightarrow> nat) \<Rightarrow> Deck \<Rightarrow> Deck" where
  "shuffle_deck rj d = d\<lparr>cards := shuffle_from rj (length (cards d) - 1) (cards d)\<rparr>"

text \<open>\<^verbatim>\<open>return self.cards.pop(0)\<close>\<close>

definition deal_card :: "Deck \<Rightarrow> py_error + (Card \<times> Deck)" where
  "deal_card d =
     (case cards d of
        [] \<Rightarrow> Inl IndexError
      | c # cs \<Rightarrow> Inr (c, d\<lparr>cards := cs\<rparr>))"

text \<open>A number of \<^verbatim>\<open>deal_card\<close> calls in sequence, with the cards in the order dealt.\<close>

fun deal_cards :: "nat \<Rightarrow> Deck \<Rightarrow> py_error + (Card list \<times> Deck)" where
  "deal_cards 0 d = Inr ([], d)"
| "deal_cards (Suc n) d =
     (case deal_card d of
        Inl e \<Rightarrow> Inl e
      | Inr (c, d') \<Rightarrow>
          (case deal_cards n d' of
             Inl e \<Rightarrow> Inl e
           | Inr (cs, d'') \<Rightarrow> Inr (c # cs, d'')))"

subsection \<open>Player\<close>

record Player =
  busted :: bool
  hand :: "Card list"

definition Player_init :: "Player" where
  "Player_init = \<lparr>busted = False, hand = []\<rparr>"

text \<open>\<^verbatim>\<open>self.hand.append(deck.deal_card())\<close>\<close>

definition hit :: "'a Player_scheme \<Rightarrow> Deck \<Rightarrow> py_error + ('a Player_scheme \<times> Deck)" where
  "hit p d =
     (case deal_card d of
        Inl e \<Rightarrow> Inl e
      | Inr (c, d') \<Rightarrow> Inr (p\<lparr>hand := hand p @ [c]\<rparr>, d'))"

text \<open>The \<^verbatim>\<open>for\<close> loop of \<^verbatim>\<open>get_hand_sum\<close>, on the cards still to visit.\<close>

fun sum_cards :: "Card list \<Rightarrow> int \<Rightarrow> nat \<Rightarrow> py_error + (int \<times> nat)" where
  "sum_cards [] hand_sum aces = Inr (hand_sum, aces)"
| "sum_cards (c # cs) hand_sum aces =
     (if isalpha (rank c) \<and> rank c \<noteq> ''A'' then sum_cards cs (hand_sum + 10) aces
      else if rank c = ''A'' then sum_cards cs (hand_sum + 11) (aces + 1)
      else (case py_int (rank c) of
              None \<Rightarrow> Inl ValueError
            | Some v \<Rightarrow> sum_cards cs (hand_sum + v) aces))"

text \<open>\<^verbatim>\<open>while hand_sum > 21 and aces: hand_sum -= 10; aces -= 1\<close>\<close>

fun adjust_aces :: "int \<Rightarrow> nat \<Rightarrow> int" where
  "adjust_aces hand_sum 0 = hand_sum"
| "adjust_aces hand_sum (Suc aces) =
     (if hand_sum > 21 then adjust_aces (hand_sum - 10) aces else hand_sum)"

definition hand_sum_of :: "Card list \<Rightarrow> py_error + int" where
  "hand_sum_of h =
     (case sum_cards h 0 0 of
        Inl e \<Rightarrow> Inl e
      | Inr (hand_sum, aces) \<Rightarrow> Inr (adjust_aces hand_sum aces))"

definition get_hand_sum :: "'a Player_scheme \<Rightarrow> py_error + int" where
  "get_hand_sum p = hand_sum_of (hand p)"

text \<open>
  \<^verbatim>\<open>if self.get_hand_sum() > 21: self.busted = True\<close>. The method returns nothing;
  its effect is on the stored flag.
\<close>

definition is_busted :: "'a Player_scheme \<Rightarrow> py_error + 'a Player_scheme" where
  "is_busted p =
     (case get_hand_sum p of
        Inl e \<Rightarrow> Inl e
      | Inr t \<Rightarrow> Inr (if t > 21 then p\<lparr>busted := True\<rparr> else p))"

subsection \<open>Dealer\<close>

text \<open>\<^verbatim>\<open>return self.get_hand_sum() <= 17\<close>\<close>

definition should_hit :: "'a Player_scheme \<Rightarrow> py_error + bool" where
  "should_hit p =
     (case get_hand_sum p of
        Inl e \<Rightarrow> Inl e
      | Inr t \<Rightarrow> Inr (t \<le> 17))"

subsection \<open>The Q-learning agent\<close>

text \<open>
  The actions are the strings \<^verbatim>\<open>'hit'\<close> and \<^verbatim>\<open>'stand'\<close>. A state is the tuple
  built by \<^verbatim>\<open>get_state\<close>, or Python's \<^verbatim>\<open>None\<close> (the terminal next state).
  An entry of the Q-table is the two-element list \<^verbatim>\<open>[Q_hit, Q_stand]\<close>: every entry
  the program creates has exactly these two elements, so an entry is a pair here.
\<close>

datatype action = Hit | Stand

type_synonym state = "(int \<times> int) option"

record AI_Player = Player +
  q_table :: "state \<rightharpoonup> real \<times> real"
  alpha :: real
  gamma :: real
  epsilon :: real

definition AI_Player_init :: "real \<Rightarrow> real \<Rightarrow> real \<Rightarrow> AI_Player" where
  "AI_Player_init learning_rate discount_factor exploration_rate =
     \<lparr>busted = False, hand = [], q_table = Map.empty, alpha = learning_rate,
      gamma = discount_factor, epsilon = exploration_rate\<rparr>"

definition get_state :: "int \<Rightarrow> Card \<Rightarrow> py_error + state" where
  "get_state player_sum dealer_card =
     (if isalpha (rank dealer_card) \<and> rank dealer_card \<noteq> ''A''
      then Inr (Some (player_sum, 10))
      else if rank dealer_card = ''A'' then Inr (Some (player_sum, 11))
      else (case py_int (rank dealer_card) of
              None \<Rightarrow> Inl ValueError
            | Some v \<Rightarrow> Inr (Some (player_sum, v))))"

text \<open>\<^verbatim>\<open>q_table.get(state, [0, 0])\<close>\<close>

definition q_lookup :: "(state \<rightharpoonup> real \<times> real) \<Rightarrow> state \<Rightarrow> real \<times> real" where
  "q_lookup t s = (case t s of None \<Rightarrow> (0, 0) | Some e \<Rightarrow> e)"

text \<open>\<^verbatim>\<open>action_index = 0 if action == 'hit' else 1\<close>, reading and writing an entry.\<close>

fun q_at :: "real \<times> real \<Rightarrow> action \<Rightarrow> real" where
  "q_at (h, s) Hit = h"
| "q_at (h, s) Stand = s"

fun q_set :: "real \<times> real \<Rightarrow> action \<Rightarrow> real \<Rightarrow> real \<times> real" where
  "q_set (h, s) Hit v = (v, s)"
| "q_set (h, s) Stand v = (h, v)"

text \<open>
  \<^verbatim>\<open>random.random()\<close> returned \<open>u\<close>; \<open>c\<close> is what \<^verbatim>\<open>random.choice(['hit', 'stand'])\<close>
  returns when it is called.
\<close>

definition choose_action :: "AI_Player \<Rightarrow> state \<Rightarrow> real \<Rightarrow> action \<Rightarrow> action" where
  "choose_action ag st u c =
     (if u < epsilon ag then c
      else if q_at (q_lookup (q_table ag) st) Hit \<ge> q_at (q_lookup (q_table ag) st) Stand
      then Hit
      else Stand)"

text \<open>\<^verbatim>\<open>max(self.q_table.get(next_state, [0, 0])) if next_state else 0\<close>\<close>

definition next_max_of :: "AI_Player \<Rightarrow> state \<Rightarrow> real" where
  "next_max_of ag next_state =
     (if next_state \<noteq> None
      then max (q_at (q_lookup (q_table ag) next_state) Hit)
               (q_at (q_lookup (q_table ag) next_state) Stand)
      else 0)"

definition update_q_value :: "AI_Player \<Rightarrow> state \<Rightarrow> action \<Rightarrow> real \<Rightarrow> state \<Rightarrow> AI_Player" where
  "update_q_value ag st act reward next_state =
     (let next_max = next_max_of ag next_state;
          old_q = q_at (q_lookup (q_table ag) st) act;
          new_value = old_q + alpha ag * (reward + gamma ag * next_max - old_q);
          t = (if q_table ag st = None then (q_table ag)(st \<mapsto> (0, 0)) else q_table ag)
      in ag\<lparr>q_table := t(st \<mapsto> q_set (q_lookup t st) act new_value)\<rparr>)"

text \<open>\<^verbatim>\<open>self.epsilon = max(0.1, self.epsilon * decay_rate)\<close>\<close>

definition decay_exploration :: "AI_Player \<Rightarrow> real \<Rightarrow> AI_Player" where
  "decay_exploration ag decay_rate = ag\<lparr>epsilon := max (1 / 10) (epsilon ag * decay_rate)\<rparr>"

subsection \<open>Training\<close>

text \<open>
  One episode is one pass through the body of the \<^verbatim>\<open>for\<close> loop of
  \<^verbatim>\<open>train_module\<close>. Its random outcomes are arguments: \<open>rj\<close> holds the draws of the
  shuffle, and \<open>rnd k\<close> holds, for the \<open>k\<close>-th call of \<^verbatim>\<open>choose_action\<close> in the
  episode, the value of \<^verbatim>\<open>random.random()\<close> and the result of \<^verbatim>\<open>random.choice\<close>.
  The local variable \<^verbatim>\<open>choice\<close> lives across episodes and is unbound before its first
  assignment, so it is an \<open>action option\<close> that every part takes and returns.
\<close>

text \<open>
  Lines 157 to 167: the hand and the flag of the agent are reset, a dealer is made, both
  draw two cards from the shuffled deck, and the first state is computed. The result is
  the agent, the deck, the dealer and the state.
\<close>

definition deal :: "AI_Player \<Rightarrow> Deck \<Rightarrow> py_error + (AI_Player \<times> Deck \<times> Player \<times> state)" where
  "deal ag deck =
     (case hit (ag\<lparr>hand := [], busted := False\<rparr>) deck of
        Inl e \<Rightarrow> Inl e
      | Inr (ag1, d1) \<Rightarrow>
     (case hit ag1 d1 of
        Inl e \<Rightarrow> Inl e
      | Inr (ag2, d2) \<Rightarrow>
     (case hit Player_init d2 of
        Inl e \<Rightarrow> Inl e
      | Inr (dealer1, d3) \<Rightarrow>
     (case hit dealer1 d3 of
        Inl e \<Rightarrow> Inl e
      | Inr (dealer2, d4) \<Rightarrow>
     (case get_hand_sum ag2 of
        Inl e \<Rightarrow> Inl e
      | Inr t \<Rightarrow>
     (case hand dealer2 of
        [] \<Rightarrow> Inl IndexError
      | c0 # _ \<Rightarrow>
     (case get_state t c0 of
        Inl e \<Rightarrow> Inl e
      | Inr st \<Rightarrow> Inr (ag2, d4, dealer2, st))))))))"

text \<open>
  Lines 169 to 187, the loop \<^verbatim>\<open>while not self.busted\<close>. The result is the agent, the
  deck, and the variables \<^verbatim>\<open>state\<close> and \<^verbatim>\<open>choice\<close> when the loop is left. A
  choice that is not stand is hit, so past the \<^verbatim>\<open>break\<close> the variable \<^verbatim>\<open>choice\<close>
  is written \<open>Hit\<close>. The dealer is an argument for its first card only; the loop
  does not change it.
\<close>

function agent_turn ::
  "AI_Player \<Rightarrow> Deck \<Rightarrow> Player \<Rightarrow> state \<Rightarrow> action option \<Rightarrow> (nat \<Rightarrow> real \<times> action) \<Rightarrow> nat
     \<Rightarrow> py_error + (AI_Player \<times> Deck \<times> state \<times> action option)" where
  "agent_turn ag deck dealer st choice rnd k =
     (if busted ag then Inr (ag, deck, st, choice)
      else if choose_action ag st (fst (rnd k)) (snd (rnd k)) = Stand
      then Inr (ag, deck, st, Some Stand)
      else
        (case hit ag deck of
           Inl e \<Rightarrow> Inl e
         | Inr (ag1, deck1) \<Rightarrow>
        (case is_busted ag1 of
           Inl e \<Rightarrow> Inl e
         | Inr ag2 \<Rightarrow>
             if busted ag2
             then agent_turn (update_q_value ag2 st Hit (- 1) None) deck1 dealer None
                    (Some Hit) rnd (Suc k)
             else
               (case get_hand_sum ag2 of
                  Inl e \<Rightarrow> Inl e
                | Inr t \<Rightarrow>
               (case hand dealer of
                  [] \<Rightarrow> Inl IndexError
                | c0 # _ \<Rightarrow>
               (case get_state t c0 of
                  Inl e \<Rightarrow> Inl e
                | Inr next_state \<Rightarrow>
                    agent_turn (update_q_value ag2 st Hit 1 next_state) deck1 dealer
                      next_state (Some Hit) rnd (Suc k)))))))"
  by pat_completeness auto
termination
  by (relation "measure (\<lambda>(ag, deck, dealer, st, choice, rnd, k). length (cards deck))")
     (auto simp: hit_def deal_card_def split: list.splits)

declare agent_turn.simps [simp del]

text \<open>
  Lines 189 to 202: nothing when the agent is bust, else the update with the reward of
  the comparison of the two totals and the terminal next state.
\<close>

definition settle :: "AI_Player \<Rightarrow> Player \<Rightarrow> state \<Rightarrow> action option \<Rightarrow> py_error + AI_Player" where
  "settle ag dealer st choice =
     (if busted ag then Inr ag
      else
        (case get_hand_sum dealer of
           Inl e \<Rightarrow> Inl e
         | Inr dealer_sum \<Rightarrow>
        (case get_hand_sum ag of
           Inl e \<Rightarrow> Inl e
         | Inr player_sum \<Rightarrow>
        (case choice of
           None \<Rightarrow> Inl UnboundLocalError
         | Some c \<Rightarrow>
             if dealer_sum > player_sum then Inr (update_q_value ag st c (- (1 / 2)) None)
             else if dealer_sum = player_sum then Inr (update_q_value ag st c (1 / 2) None)
             else Inr (update_q_value ag st c 1 None)))))"

text \<open>
  The body of the loop on a deck that is already shuffled. The result is the agent, the
  variable \<^verbatim>\<open>choice\<close>, and the dealer and the deck as the episode leaves them.
\<close>

definition play_round ::
  "AI_Player \<Rightarrow> action option \<Rightarrow> Deck \<Rightarrow> (nat \<Rightarrow> real \<times> action)
     \<Rightarrow> py_error + (AI_Player \<times> action option \<times> Player \<times> Deck)" where
  "play_round ag choice deck rnd =
     (case deal ag deck of
        Inl e \<Rightarrow> Inl e
      | Inr (ag2, d4, dealer, st) \<Rightarrow>
     (case agent_turn ag2 d4 dealer st choice rnd 0 of
        Inl e \<Rightarrow> Inl e
      | Inr (ag3, d5, st', choice') \<Rightarrow>
     (case settle ag3 dealer st' choice' of
        Inl e \<Rightarrow> Inl e
      | Inr ag4 \<Rightarrow> Inr (decay_exploration ag4 (9999 / 10000), choice', dealer, d5))))"

definition episode ::
  "AI_Player \<Rightarrow> action option \<Rightarrow> (nat \<Rightarrow> nat) \<Rightarrow> (nat \<Rightarrow> real \<times> action)
     \<Rightarrow> py_error + (AI_Player \<times> action option \<times> Player \<times> Deck)" where
  "episode ag choice rj rnd = play_round ag choice (shuffle_deck rj Deck_init) rnd"

text \<open>
  \<^verbatim>\<open>train_module\<close>: one episode for each element of the list of random outcomes, whose
  length is \<^verbatim>\<open>n_games\<close>.
\<close>

fun train_episodes ::
  "AI_Player \<Rightarrow> action option \<Rightarrow> ((nat \<Rightarrow> nat) \<times> (nat \<Rightarrow> real \<times> action)) list
     \<Rightarrow> py_error + AI_Player" where
  "train_episodes ag choice [] = Inr ag"
| "train_episodes ag choice ((rj, rnd) # rest) =
     (case episode ag choice rj rnd of
        Inl e \<Rightarrow> Inl e
      | Inr (ag', choice', dealer, deck) \<Rightarrow> train_episodes ag' choice' rest)"

definition train_module ::
  "AI_Player \<Rightarrow> ((nat \<Rightarrow> nat) \<times> (nat \<Rightarrow> real \<times> action)) list \<Rightarrow> py_error + AI_Player" where
  "train_module ag outcomes = train_episodes ag None outcomes"

subsection \<open>Auxiliary notions for the proofs\<close>

text \<open>
  What a card of a given rank adds to \<open>hand_sum\<close> and to \<open>aces\<close> in the loop of
  \<^verbatim>\<open>get_hand_sum\<close>; \<open>None\<close> when the rank raises \<^verbatim>\<open>ValueError\<close>.
\<close>

definition rank_points :: "string \<Rightarrow> (int \<times> nat) option" where
  "rank_points r =
     (if isalpha r \<and> r \<noteq> ''A'' then Some (10, 0)
      else if r = ''A'' then Some (11, 1)
      else map_option (\<lambda>v. (v, 0)) (py_int r))"

definition card_points :: "Card \<Rightarrow> (int \<times> nat) option" where
  "card_points c = rank_points (rank c)"

text \<open>
  The variable \<^verbatim>\<open>state\<close> of \<^verbatim>\<open>train_module\<close> holds the state of the agent's
  hand against the dealer's first card.
\<close>

definition state_of :: "AI_Player \<Rightarrow> Player \<Rightarrow> state \<Rightarrow> bool" where
  "state_of ag dealer st =
     (\<exists>t c0 rest. get_hand_sum ag = Inr t \<and> hand dealer = c0 # rest \<and> get_state t c0 = Inr st)"

section \<open>Theorems\<close>

subsection \<open>Evaluation of ranks\<close>

lemma py_int_ranks:
  "py_int ''2'' = Some 2" "py_int ''3'' = Some 3" "py_int ''4'' = Some 4"
  "py_int ''5'' = Some 5" "py_int ''6'' = Some 6" "py_int ''7'' = Some 7"
  "py_int ''8'' = Some 8" "py_int ''9'' = Some 9" "py_int ''10'' = Some 10"
  by (simp_all add: py_int_def strip_def is_space_char_def is_digit_char_def digit_val_def)

lemma isalpha_ranks:
  "isalpha ''J''" "isalpha ''Q''" "isalpha ''K''" "isalpha ''A''"
  "\<not> isalpha ''2''" "\<not> isalpha ''3''" "\<not> isalpha ''4''" "\<not> isalpha ''5''"
  "\<not> isalpha ''6''" "\<not> isalpha ''7''" "\<not> isalpha ''8''" "\<not> isalpha ''9''"
  "\<not> isalpha ''10''"
  by (simp_all add: isalpha_def is_alpha_char_def)

text \<open>
  C1. The claim is that the dealer draws exactly on totals of at most 16. On the
  hand ten, seven (total 17) the dealer's predicate of the program says draw.
\<close>

theorem should_hit_on_17:
  "get_hand_sum \<lparr>busted = False,
       hand = [\<lparr>rank = ''10'', suit = Spades\<rparr>, \<lparr>rank = ''7'', suit = Hearts\<rparr>]\<rparr> = Inr 17
   \<and> should_hit \<lparr>busted = False,
       hand = [\<lparr>rank = ''10'', suit = Spades\<rparr>, \<lparr>rank = ''7'', suit = Hearts\<rparr>]\<rparr> = Inr True"
  by (simp add: should_hit_def get_hand_sum_def hand_sum_of_def py_int_ranks isalpha_ranks)

subsection \<open>The update rule\<close>

lemma q_at_q_set: "q_at (q_set p a v) a = v"
  by (cases p; cases a) simp_all

text \<open>
  C4. \<^verbatim>\<open>update_q_value\<close> leaves every field but the table alone and stores, at
  \<open>state\<close> and \<open>action\<close>, the old value plus \<open>alpha\<close> times the temporal
  difference; an absent entry is read as zeros, the other action's value of the entry is
  kept, \<open>next_max\<close> is \<open>0\<close> for the terminal next state and the larger value of
  the next state's entry (zeros when absent) otherwise. One update of state (12, 6),
  hit, reward 1, next state (18, 6) on the empty table stores \<open>alpha\<close> for hit.
\<close>

theorem update_q_value_rule:
  "update_q_value ag st act reward next_state =
     ag\<lparr>q_table := (q_table ag)(st \<mapsto>
        q_set (q_lookup (q_table ag) st) act
          (q_at (q_lookup (q_table ag) st) act
             + alpha ag * (reward + gamma ag * next_max_of ag next_state
                           - q_at (q_lookup (q_table ag) st) act)))\<rparr>
   \<and> q_at (q_lookup (q_table (update_q_value ag st act reward next_state)) st) act =
       q_at (q_lookup (q_table ag) st) act
         + alpha ag * (reward + gamma ag * next_max_of ag next_state
                       - q_at (q_lookup (q_table ag) st) act)
   \<and> next_max_of ag None = 0
   \<and> next_max_of ag (Some k) =
       (case q_table ag (Some k) of None \<Rightarrow> 0 | Some (h, s) \<Rightarrow> max h s)
   \<and> q_table (update_q_value (AI_Player_init a g e) (Some (12, 6)) Hit 1 (Some (18, 6)))
       = [Some (12, 6) \<mapsto> (a, 0)]"
proof -
  obtain h s where e: "q_lookup (q_table ag) st = (h, s)"
    by (cases "q_lookup (q_table ag) st")
  have t: "q_lookup ((q_table ag)(st \<mapsto> (0, 0))) st = (0, 0)"
    by (simp add: q_lookup_def)
  have none: "q_table ag st = None \<Longrightarrow> h = 0 \<and> s = 0"
    using e by (simp add: q_lookup_def)
  have whole: "update_q_value ag st act reward next_state =
     ag\<lparr>q_table := (q_table ag)(st \<mapsto>
        q_set (q_lookup (q_table ag) st) act
          (q_at (q_lookup (q_table ag) st) act
             + alpha ag * (reward + gamma ag * next_max_of ag next_state
                           - q_at (q_lookup (q_table ag) st) act)))\<rparr>"
    using none by (cases act) (auto simp: update_q_value_def Let_def e t)
  have entry: "q_at (q_lookup (q_table (update_q_value ag st act reward next_state)) st) act =
       q_at (q_lookup (q_table ag) st) act
         + alpha ag * (reward + gamma ag * next_max_of ag next_state
                       - q_at (q_lookup (q_table ag) st) act)"
    unfolding whole by (simp add: q_lookup_def q_at_q_set)
  have nm: "next_max_of ag (Some k) =
       (case q_table ag (Some k) of None \<Rightarrow> 0 | Some (h, s) \<Rightarrow> max h s)"
    by (auto simp: next_max_of_def q_lookup_def split: option.splits)
  have ex: "q_table (update_q_value (AI_Player_init a g e) (Some (12, 6)) Hit 1 (Some (18, 6)))
       = [Some (12, 6) \<mapsto> (a, 0)]"
    by (simp add: update_q_value_def AI_Player_init_def q_lookup_def next_max_of_def Let_def)
  show ?thesis
    using whole entry nm ex by (simp add: next_max_of_def)
qed

subsection \<open>Exploration decay\<close>

lemma decay_floor: "1 / 10 \<le> epsilon (decay_exploration ag d)"
  by (simp add: decay_exploration_def)

lemma decay_le:
  assumes "1 / 10 \<le> epsilon ag" "0 < d" "d \<le> 1"
  shows "epsilon (decay_exploration ag d) \<le> epsilon ag"
proof -
  have "0 \<le> epsilon ag" using assms(1) by simp
  then have "epsilon ag * d \<le> epsilon ag"
    using assms(3) by (simp add: mult_left_le)
  then show ?thesis using assms(1) by (simp add: decay_exploration_def)
qed

lemma decay_iter_floor:
  "1 / 10 \<le> epsilon ag \<Longrightarrow> 1 / 10 \<le> epsilon (((\<lambda>a. decay_exploration a d) ^^ n) ag)"
proof (induction n)
  case 0
  then show ?case by simp
next
  case (Suc n)
  show ?case
    using decay_floor [of "((\<lambda>a. decay_exploration a d) ^^ n) ag" d] by simp
qed

text \<open>
  C5, as stated, fails for an agent constructed with an exploration rate below the
  floor: the first decay raises epsilon from 0.05 to 0.1.
\<close>

theorem decay_exploration_below_floor_rises:
  "epsilon (decay_exploration (AI_Player_init (3 / 10) (95 / 100) (5 / 100)) (9999 / 10000))
     = 1 / 10
   \<and> \<not> epsilon (decay_exploration (AI_Player_init (3 / 10) (95 / 100) (5 / 100)) (9999 / 10000))
         \<le> epsilon (AI_Player_init (3 / 10) (95 / 100) (5 / 100))"
  by (simp add: decay_exploration_def AI_Player_init_def)

text \<open>
  C5, amended. For a decay rate in (0, 1], a call replaces epsilon by
  \<open>max 0.1 (epsilon * decay_rate)\<close>, so epsilon is at least 0.1 after every call;
  and when epsilon is at least 0.1 before the first call, the sequence of its values
  under repeated calls never increases and never falls below 0.1.
\<close>

theorem decay_exploration_sequence:
  assumes "0 < d" and "d \<le> 1"
  shows "epsilon (decay_exploration ag d) = max (1 / 10) (epsilon ag * d)
       \<and> 1 / 10 \<le> epsilon (decay_exploration ag d)
       \<and> (1 / 10 \<le> epsilon ag \<longrightarrow>
            (\<forall>n. epsilon (((\<lambda>a. decay_exploration a d) ^^ Suc n) ag)
                   \<le> epsilon (((\<lambda>a. decay_exploration a d) ^^ n) ag)
                \<and> 1 / 10 \<le> epsilon (((\<lambda>a. decay_exploration a d) ^^ n) ag)))"
proof (intro conjI impI allI)
  show "epsilon (decay_exploration ag d) = max (1 / 10) (epsilon ag * d)"
    by (simp add: decay_exploration_def)
  show "1 / 10 \<le> epsilon (decay_exploration ag d)" by (rule decay_floor)
next
  fix n assume a: "1 / 10 \<le> epsilon ag"
  then show f: "1 / 10 \<le> epsilon (((\<lambda>a. decay_exploration a d) ^^ n) ag)"
    by (rule decay_iter_floor)
  show "epsilon (((\<lambda>a. decay_exploration a d) ^^ Suc n) ag)
          \<le> epsilon (((\<lambda>a. decay_exploration a d) ^^ n) ag)"
    using decay_le [OF f assms] by simp
qed

theorem decay_exploration_sequence_witness:
  "epsilon (decay_exploration (AI_Player_init (3 / 10) (95 / 100) 1) (1 / 2)) = 1 / 2
   \<and> epsilon (((\<lambda>a. decay_exploration a (1 / 2)) ^^ Suc (Suc 0)) (AI_Player_init (3 / 10) (95 / 100) 1))
       \<le> epsilon (((\<lambda>a. decay_exploration a (1 / 2)) ^^ Suc 0) (AI_Player_init (3 / 10) (95 / 100) 1))
   \<and> epsilon (((\<lambda>a. decay_exploration a (1 / 2)) ^^ Suc (Suc 0)) (AI_Player_init (3 / 10) (95 / 100) 1))
       = 1 / 4"
proof -
  have d: "(0::real) < 1 / 2" "(1 / 2 :: real) \<le> 1" by simp_all
  have e: "1 / 10 \<le> epsilon (AI_Player_init (3 / 10) (95 / 100) 1)"
    by (simp add: AI_Player_init_def)
  from decay_exploration_sequence [OF d, of "AI_Player_init (3 / 10) (95 / 100) 1"] e
  have "epsilon (((\<lambda>a. decay_exploration a (1 / 2)) ^^ Suc (Suc 0)) (AI_Player_init (3 / 10) (95 / 100) 1))
       \<le> epsilon (((\<lambda>a. decay_exploration a (1 / 2)) ^^ Suc 0) (AI_Player_init (3 / 10) (95 / 100) 1))"
    by blast
  then show ?thesis
    by (simp add: decay_exploration_def AI_Player_init_def)
qed

subsection \<open>Action selection\<close>

text \<open>
  C9. \<^verbatim>\<open>random.random()\<close> returns a number \<open>u\<close> that is not negative. Whenever
  \<open>u\<close> is not below epsilon, and so always when epsilon is 0, \<^verbatim>\<open>choose_action\<close>
  returns hit if the hit value of the state is at least its stand value (an absent
  entry read as zeros) and stand otherwise; with epsilon 0 and an empty table it
  returns hit for every state.
\<close>

theorem choose_action_exploit:
  assumes "0 \<le> u"
  shows "(\<not> u < epsilon ag \<longrightarrow>
            choose_action ag st u c =
              (if q_at (q_lookup (q_table ag) st) Hit \<ge> q_at (q_lookup (q_table ag) st) Stand
               then Hit else Stand))
       \<and> (epsilon ag = 0 \<longrightarrow>
            choose_action ag st u c =
              (if q_at (q_lookup (q_table ag) st) Hit \<ge> q_at (q_lookup (q_table ag) st) Stand
               then Hit else Stand))
       \<and> (epsilon ag = 0 \<and> q_table ag = Map.empty \<longrightarrow> choose_action ag st u c = Hit)"
  using assms by (auto simp: choose_action_def q_lookup_def)

theorem choose_action_exploit_witness:
  "choose_action (AI_Player_init (3 / 10) (95 / 100) 0) (Some (21, 10)) (1 / 2) Stand = Hit
   \<and> choose_action ((AI_Player_init (3 / 10) (95 / 100) 0)
        \<lparr>q_table := [Some (21, 10) \<mapsto> (0, 1)]\<rparr>) (Some (21, 10)) (1 / 2) Hit = Stand"
proof -
  have u: "(0::real) \<le> 1 / 2" by simp
  show ?thesis
    using choose_action_exploit [OF u, of "AI_Player_init (3 / 10) (95 / 100) 0" "Some (21, 10)" Stand]
      choose_action_exploit [OF u, of "(AI_Player_init (3 / 10) (95 / 100) 0)
        \<lparr>q_table := [Some (21, 10) \<mapsto> (0, 1)]\<rparr>" "Some (21, 10)" Hit]
    by (simp add: AI_Player_init_def q_lookup_def)
qed

subsection \<open>The hand total\<close>

lemma sum_cards_points:
  "sum_cards cs h a =
     (if list_all (\<lambda>c. card_points c \<noteq> None) cs
      then Inr (h + sum_list (map (\<lambda>c. fst (the (card_points c))) cs),
                a + sum_list (map (\<lambda>c. snd (the (card_points c))) cs))
      else Inl ValueError)"
  by (induction cs arbitrary: h a) (auto simp: card_points_def rank_points_def split: option.splits)

lemma sum_cards_ranks:
  assumes "mset (map rank xs) = mset (map rank ys)"
  shows "sum_cards xs h a = sum_cards ys h a"
proof -
  have s: "rank ` set xs = rank ` set ys"
    using mset_eq_setD [OF assms] by simp
  have m: "sum_list (map (\<lambda>c. g (rank c)) xs) = sum_list (map (\<lambda>c. g (rank c)) ys)"
    for g :: "string \<Rightarrow> 'b::comm_monoid_add"
  proof -
    have "mset (map g (map rank xs)) = mset (map g (map rank ys))"
      using assms by (metis mset_map)
    then have "sum_mset (mset (map g (map rank xs))) = sum_mset (mset (map g (map rank ys)))"
      by simp
    then show ?thesis by (simp only: sum_mset_sum_list map_map o_def)
  qed
  have "(\<forall>c\<in>set xs. rank_points (rank c) \<noteq> None) = (\<forall>r\<in>rank ` set xs. rank_points r \<noteq> None)"
    by blast
  also have "\<dots> = (\<forall>r\<in>rank ` set ys. rank_points r \<noteq> None)"
    by (simp only: s)
  also have "\<dots> = (\<forall>c\<in>set ys. rank_points (rank c) \<noteq> None)"
    by blast
  finally have l: "list_all (\<lambda>c. rank_points (rank c) \<noteq> None) xs
                     = list_all (\<lambda>c. rank_points (rank c) \<noteq> None) ys"
    by (simp only: list_all_iff)
  show ?thesis
    unfolding sum_cards_points card_points_def l
      m [of "\<lambda>r. fst (the (rank_points r))"] m [of "\<lambda>r. snd (the (rank_points r))"] ..
qed

text \<open>
  C6. Two hands with the same multiset of ranks, whatever the suits and the order of
  the cards, aces included, have the same result of \<^verbatim>\<open>get_hand_sum\<close>, be it a total
  or the \<^verbatim>\<open>ValueError\<close> of a rank that is no number. The function returns a value
  only; the player it reads is not changed.
\<close>

theorem get_hand_sum_permutation:
  assumes "mset (map rank (hand p)) = mset (map rank (hand q))"
  shows "get_hand_sum p = get_hand_sum q \<and> hand_sum_of (hand p) = hand_sum_of (hand q)"
  using sum_cards_ranks [OF assms] by (simp add: get_hand_sum_def hand_sum_of_def)

lemma adjust_aces_gt: "21 < adjust_aces hs a \<longleftrightarrow> 21 < hs - 10 * int a"
  by (induction a arbitrary: hs) auto

lemma sum_cards_append:
  "sum_cards (xs @ ys) h a =
     (case sum_cards xs h a of Inl e \<Rightarrow> Inl e | Inr (h', a') \<Rightarrow> sum_cards ys h' a')"
  by (induction xs arbitrary: h a) (auto split: option.splits)

lemma card_points_ranks:
  assumes "rank c \<in> set ranks"
  shows "\<exists>v k. card_points c = Some (v, k) \<and> 10 * int k \<le> v"
  using assms by (auto simp: ranks_def card_points_def rank_points_def py_int_ranks isalpha_ranks)

lemma sum_cards_single:
  "sum_cards [c] h a =
     (case card_points c of None \<Rightarrow> Inl ValueError | Some (v, k) \<Rightarrow> Inr (h + v, a + k))"
  by (auto simp: card_points_def rank_points_def split: option.splits)


lemma hand_sum_examples:
  "hand_sum_of [\<lparr>rank = ''A'', suit = Spades\<rparr>, \<lparr>rank = ''9'', suit = Hearts\<rparr>] = Inr 20"
  "hand_sum_of [\<lparr>rank = ''A'', suit = Spades\<rparr>, \<lparr>rank = ''9'', suit = Hearts\<rparr>,
                \<lparr>rank = ''5'', suit = Clubs\<rparr>] = Inr 15"
  "hand_sum_of [\<lparr>rank = ''K'', suit = Spades\<rparr>, \<lparr>rank = ''Q'', suit = Hearts\<rparr>,
                \<lparr>rank = ''2'', suit = Clubs\<rparr>] = Inr 22"
  "hand_sum_of [\<lparr>rank = ''K'', suit = Spades\<rparr>, \<lparr>rank = ''Q'', suit = Hearts\<rparr>,
                \<lparr>rank = ''2'', suit = Clubs\<rparr>, \<lparr>rank = ''A'', suit = Clubs\<rparr>] = Inr 23"
  by (simp_all add: hand_sum_of_def py_int_ranks isalpha_ranks)

text \<open>
  C10. A hand whose total exceeds 21 still exceeds 21 after a card of the deck (a card
  whose rank is one of the thirteen ranks) is appended, whereas the total of a hand
  that is not bust can fall: ace, nine is 20, and ace, nine, five is 15.
\<close>

theorem bust_is_irreversible:
  assumes "rank c \<in> set ranks" and "hand_sum_of h = Inr t" and "21 < t"
  shows "(\<exists>t'. hand_sum_of (h @ [c]) = Inr t' \<and> 21 < t')
       \<and> hand_sum_of [\<lparr>rank = ''A'', suit = Spades\<rparr>, \<lparr>rank = ''9'', suit = Hearts\<rparr>] = Inr 20
       \<and> hand_sum_of ([\<lparr>rank = ''A'', suit = Spades\<rparr>, \<lparr>rank = ''9'', suit = Hearts\<rparr>]
                        @ [\<lparr>rank = ''5'', suit = Clubs\<rparr>]) = Inr 15"
proof -
  obtain hs a where sc: "sum_cards h 0 0 = Inr (hs, a)" and t: "t = adjust_aces hs a"
    using assms(2) by (auto simp: hand_sum_of_def split: sum.splits)
  obtain v k where cp: "card_points c = Some (v, k)" and vk: "10 * int k \<le> v"
    using card_points_ranks [OF assms(1)] by blast
  have "21 < hs - 10 * int a" using assms(3) t by (simp add: adjust_aces_gt)
  then have "21 < (hs + v) - 10 * int (a + k)" using vk by simp
  then have "21 < adjust_aces (hs + v) (a + k)" by (simp only: adjust_aces_gt)
  moreover have "hand_sum_of (h @ [c]) = Inr (adjust_aces (hs + v) (a + k))"
    by (simp add: hand_sum_of_def sum_cards_append sc sum_cards_single cp del: sum_cards.simps)
  ultimately show ?thesis by (simp add: hand_sum_examples)
qed

theorem bust_is_irreversible_witness:
  "hand_sum_of [\<lparr>rank = ''K'', suit = Spades\<rparr>, \<lparr>rank = ''Q'', suit = Hearts\<rparr>,
                \<lparr>rank = ''2'', suit = Clubs\<rparr>] = Inr 22
   \<and> (\<exists>t'. hand_sum_of ([\<lparr>rank = ''K'', suit = Spades\<rparr>, \<lparr>rank = ''Q'', suit = Hearts\<rparr>,
                \<lparr>rank = ''2'', suit = Clubs\<rparr>] @ [\<lparr>rank = ''A'', suit = Clubs\<rparr>]) = Inr t'
          \<and> 21 < t')"
proof -
  have r: "rank \<lparr>rank = ''A'', suit = Clubs\<rparr> \<in> set ranks" by (simp add: ranks_def)
  have s: "hand_sum_of [\<lparr>rank = ''K'', suit = Spades\<rparr>, \<lparr>rank = ''Q'', suit = Hearts\<rparr>,
                \<lparr>rank = ''2'', suit = Clubs\<rparr>] = Inr 22"
    by (rule hand_sum_examples)
  have b: "(21::int) < 22" by simp
  from bust_is_irreversible [OF r s b] s show ?thesis by blast
qed

theorem get_hand_sum_permutation_witness:
  "mset (map rank (hand \<lparr>busted = False, hand = [\<lparr>rank = ''A'', suit = Spades\<rparr>,
            \<lparr>rank = ''9'', suit = Hearts\<rparr>, \<lparr>rank = ''A'', suit = Clubs\<rparr>]\<rparr>))
     = mset (map rank (hand \<lparr>busted = True, hand = [\<lparr>rank = ''9'', suit = Diamonds\<rparr>,
            \<lparr>rank = ''A'', suit = Hearts\<rparr>, \<lparr>rank = ''A'', suit = Diamonds\<rparr>]\<rparr>))
   \<and> get_hand_sum \<lparr>busted = False, hand = [\<lparr>rank = ''A'', suit = Spades\<rparr>,
            \<lparr>rank = ''9'', suit = Hearts\<rparr>, \<lparr>rank = ''A'', suit = Clubs\<rparr>]\<rparr> = Inr 21
   \<and> get_hand_sum \<lparr>busted = True, hand = [\<lparr>rank = ''9'', suit = Diamonds\<rparr>,
            \<lparr>rank = ''A'', suit = Hearts\<rparr>, \<lparr>rank = ''A'', suit = Diamonds\<rparr>]\<rparr> = Inr 21"
proof -
  have m: "mset (map rank (hand \<lparr>busted = False, hand = [\<lparr>rank = ''A'', suit = Spades\<rparr>,
            \<lparr>rank = ''9'', suit = Hearts\<rparr>, \<lparr>rank = ''A'', suit = Clubs\<rparr>]\<rparr>))
     = mset (map rank (hand \<lparr>busted = True, hand = [\<lparr>rank = ''9'', suit = Diamonds\<rparr>,
            \<lparr>rank = ''A'', suit = Hearts\<rparr>, \<lparr>rank = ''A'', suit = Diamonds\<rparr>]\<rparr>))"
    by simp
  have v: "get_hand_sum \<lparr>busted = False, hand = [\<lparr>rank = ''A'', suit = Spades\<rparr>,
            \<lparr>rank = ''9'', suit = Hearts\<rparr>, \<lparr>rank = ''A'', suit = Clubs\<rparr>]\<rparr> = Inr 21"
    by (simp add: get_hand_sum_def hand_sum_of_def py_int_ranks isalpha_ranks)
  from get_hand_sum_permutation [OF m] m v show ?thesis by simp
qed

subsection \<open>The bust flag\<close>

text \<open>
  C8, as stated, fails: \<^verbatim>\<open>busted\<close> is a stored attribute. After \<^verbatim>\<open>hit\<close> draws a
  five onto king, queen the total is 25 and the flag is still false; and
  \<^verbatim>\<open>is_busted\<close> leaves a flag that is set as it is on a hand of total 5.
\<close>

theorem busted_flag_lags_after_hit:
  "hit \<lparr>busted = False, hand = [\<lparr>rank = ''K'', suit = Spades\<rparr>, \<lparr>rank = ''Q'', suit = Hearts\<rparr>]\<rparr>
       \<lparr>cards = [\<lparr>rank = ''5'', suit = Clubs\<rparr>]\<rparr>
     = Inr (\<lparr>busted = False, hand = [\<lparr>rank = ''K'', suit = Spades\<rparr>,
              \<lparr>rank = ''Q'', suit = Hearts\<rparr>, \<lparr>rank = ''5'', suit = Clubs\<rparr>]\<rparr>, \<lparr>cards = []\<rparr>)
   \<and> get_hand_sum \<lparr>busted = False, hand = [\<lparr>rank = ''K'', suit = Spades\<rparr>,
              \<lparr>rank = ''Q'', suit = Hearts\<rparr>, \<lparr>rank = ''5'', suit = Clubs\<rparr>]\<rparr> = Inr 25
   \<and> busted \<lparr>busted = False, hand = [\<lparr>rank = ''K'', suit = Spades\<rparr>,
              \<lparr>rank = ''Q'', suit = Hearts\<rparr>, \<lparr>rank = ''5'', suit = Clubs\<rparr>]\<rparr> = False
   \<and> is_busted \<lparr>busted = True, hand = [\<lparr>rank = ''5'', suit = Clubs\<rparr>]\<rparr>
     = Inr \<lparr>busted = True, hand = [\<lparr>rank = ''5'', suit = Clubs\<rparr>]\<rparr>"
  by (simp add: hit_def deal_card_def is_busted_def get_hand_sum_def hand_sum_of_def
      py_int_ranks isalpha_ranks)

text \<open>
  C8, amended. \<^verbatim>\<open>is_busted\<close> changes nothing but the stored flag, which it sets
  when the total of the hand exceeds 21 and never clears; so on a player whose flag is
  not set, the flag after the call says whether the total exceeds 21.
\<close>

theorem is_busted_sets_flag:
  assumes "get_hand_sum p = Inr t"
  shows "is_busted p = Inr (p\<lparr>busted := busted p \<or> 21 < t\<rparr>)
       \<and> (\<not> busted p \<longrightarrow> (\<exists>p'. is_busted p = Inr p' \<and> hand p' = hand p
                                \<and> (busted p' \<longleftrightarrow> 21 < t)))"
  using assms by (auto simp: is_busted_def)

theorem is_busted_sets_flag_witness:
  "get_hand_sum \<lparr>busted = False, hand = [\<lparr>rank = ''K'', suit = Spades\<rparr>,
              \<lparr>rank = ''Q'', suit = Hearts\<rparr>, \<lparr>rank = ''5'', suit = Clubs\<rparr>]\<rparr> = Inr 25
   \<and> is_busted \<lparr>busted = False, hand = [\<lparr>rank = ''K'', suit = Spades\<rparr>,
              \<lparr>rank = ''Q'', suit = Hearts\<rparr>, \<lparr>rank = ''5'', suit = Clubs\<rparr>]\<rparr>
       = Inr \<lparr>busted = True, hand = [\<lparr>rank = ''K'', suit = Spades\<rparr>,
              \<lparr>rank = ''Q'', suit = Hearts\<rparr>, \<lparr>rank = ''5'', suit = Clubs\<rparr>]\<rparr>"
proof -
  have s: "get_hand_sum \<lparr>busted = False, hand = [\<lparr>rank = ''K'', suit = Spades\<rparr>,
              \<lparr>rank = ''Q'', suit = Hearts\<rparr>, \<lparr>rank = ''5'', suit = Clubs\<rparr>]\<rparr> = Inr 25"
    by (simp add: get_hand_sum_def hand_sum_of_def py_int_ranks isalpha_ranks)
  from is_busted_sets_flag [OF s] s show ?thesis by simp
qed

subsection \<open>The deck\<close>

lemma shuffle_from_mset:
  "i < length x \<Longrightarrow> mset (shuffle_from rj i x) = mset x"
proof (induction i arbitrary: x)
  case 0
  then show ?case by simp
next
  case (Suc i)
  let ?j = "rj (Suc i) mod (Suc i + 1)"
  have j: "?j < length x" using Suc.prems by (simp add: less_Suc_eq_le mod_less_divisor [THEN less_imp_le] le_less_trans [OF _ Suc.prems] mod_Suc_le_divisor le_less_trans)
  have "mset (x[Suc i := x ! ?j, ?j := x ! Suc i]) = mset x"
    using Suc.prems j by (simp add: mset_swap)
  moreover have "i < length (x[Suc i := x ! ?j, ?j := x ! Suc i])"
    using Suc.prems by simp
  ultimately show ?case using Suc.IH by (simp add: Let_def)
qed

lemma deal_cards_all:
  "cards d = cs \<Longrightarrow> deal_cards (length cs) d = Inr (cs, d\<lparr>cards := []\<rparr>)"
  by (induction cs arbitrary: d) (auto simp: deal_card_def)

lemma Deck_init_length: "length (cards Deck_init) = 52"
  by (simp add: Deck_init_def suits_def ranks_def)

lemma Deck_init_distinct: "distinct (cards Deck_init)"
  by (simp add: Deck_init_def suits_def ranks_def)


lemma Deck_init_set:
  "set (cards Deck_init) = {c. rank c \<in> set ranks \<and> suit c \<in> set suits}"
proof (intro equalityI subsetI)
  fix c assume "c \<in> set (cards Deck_init)"
  then show "c \<in> {c. rank c \<in> set ranks \<and> suit c \<in> set suits}"
    by (auto simp: Deck_init_def)
next
  fix c :: Card assume "c \<in> {c. rank c \<in> set ranks \<and> suit c \<in> set suits}"
  then have "rank c \<in> set ranks" "suit c \<in> set suits" by simp_all
  moreover have "c = \<lparr>rank = rank c, suit = suit c\<rparr>" by simp
  ultimately have "\<exists>s\<in>set suits. \<exists>r\<in>set ranks. c = \<lparr>rank = r, suit = s\<rparr>"
    by blast
  then show "c \<in> set (cards Deck_init)"
    unfolding Deck_init_def by (simp add: image_iff)
qed

lemma shuffle_from_id: "shuffle_from (\<lambda>i. i) n x = x"
  by (induction n arbitrary: x) simp_all

lemma shuffle_deck_id: "shuffle_deck (\<lambda>i. i) d = d"
  by (simp add: shuffle_deck_def shuffle_from_id)

text \<open>
  C7, as stated, fails in the error it names. The program defines no exception class
  and \<^verbatim>\<open>deal_card\<close> has no guard: on the deck that 52 deals have emptied, the
  53rd call is \<^verbatim>\<open>pop(0)\<close> on the empty list, which raises \<^verbatim>\<open>IndexError\<close>, not an
  \<^verbatim>\<open>EmptyDeckError\<close>.
\<close>

theorem deal_from_empty_deck_raises_IndexError:
  "deal_cards 52 (shuffle_deck (\<lambda>i. i) Deck_init)
     = Inr (cards Deck_init, Deck_init\<lparr>cards := []\<rparr>)
   \<and> deal_card (Deck_init\<lparr>cards := []\<rparr>) = Inl IndexError
   \<and> deal_card (Deck_init\<lparr>cards := []\<rparr>) \<noteq> Inl ValueError
   \<and> deal_card (Deck_init\<lparr>cards := []\<rparr>) \<noteq> Inl UnboundLocalError"
proof -
  have "deal_cards (length (cards Deck_init)) Deck_init
          = Inr (cards Deck_init, Deck_init\<lparr>cards := []\<rparr>)"
    by (rule deal_cards_all) simp
  then have "deal_cards 52 (shuffle_deck (\<lambda>i. i) Deck_init)
          = Inr (cards Deck_init, Deck_init\<lparr>cards := []\<rparr>)"
    by (simp only: Deck_init_length shuffle_deck_id)
  then show ?thesis by (simp add: deal_card_def)
qed

text \<open>
  C7, amended. A new deck holds 52 distinct cards, one for each rank and suit. Whatever
  the shuffle draws, 52 calls of \<^verbatim>\<open>deal_card\<close> on the shuffled deck succeed and
  return each of these cards exactly once, and the next call fails with Python's
  \<^verbatim>\<open>IndexError\<close>, raised by \<^verbatim>\<open>pop(0)\<close> on the empty list.
\<close>

theorem deck_deals_each_card_once:
  "length (cards Deck_init) = 52
   \<and> distinct (cards Deck_init)
   \<and> set (cards Deck_init) = {c. rank c \<in> set ranks \<and> suit c \<in> set suits}
   \<and> (\<exists>cs d'. deal_cards 52 (shuffle_deck rj Deck_init) = Inr (cs, d')
         \<and> mset cs = mset (cards Deck_init)
         \<and> distinct cs
         \<and> deal_card d' = Inl IndexError)"
proof -
  let ?d = "shuffle_deck rj Deck_init"
  have m: "mset (cards ?d) = mset (cards Deck_init)"
    by (simp add: shuffle_deck_def shuffle_from_mset Deck_init_length)
  then have l: "length (cards ?d) = 52"
    using Deck_init_length by (metis size_mset)
  have dc: "deal_cards 52 ?d = Inr (cards ?d, ?d\<lparr>cards := []\<rparr>)"
    using deal_cards_all [of ?d "cards ?d"] l by simp
  have di: "distinct (cards ?d)"
    using m Deck_init_distinct by (metis mset_eq_imp_distinct_iff)
  have e: "deal_card (?d\<lparr>cards := []\<rparr>) = Inl IndexError"
    by (simp add: deal_card_def)
  show ?thesis
    using Deck_init_length Deck_init_distinct Deck_init_set dc m di e by blast
qed

subsection \<open>The training episode\<close>

lemma update_q_value_player [simp]:
  "busted (update_q_value ag st a r ns) = busted ag"
  "hand (update_q_value ag st a r ns) = hand ag"
  "get_hand_sum (update_q_value ag st a r ns) = get_hand_sum ag"
  by (simp_all add: update_q_value_def Let_def get_hand_sum_def)

text \<open>
  When the loop of the agent's turn is left, \<^verbatim>\<open>choice\<close> is bound; and if the agent is
  not bust, the loop was left by \<^verbatim>\<open>break\<close>, so \<^verbatim>\<open>choice\<close> is stand and \<^verbatim>\<open>state\<close>
  is the state of the hand that the agent stands on.
\<close>

lemma agent_turn_result:
  assumes "agent_turn ag deck dealer st choice rnd k = Inr (ag', deck', st', choice')"
    and "\<not> busted ag \<longrightarrow> state_of ag dealer st"
    and "busted ag \<longrightarrow> choice \<noteq> None"
  shows "choice' \<noteq> None \<and> (\<not> busted ag' \<longrightarrow> choice' = Some Stand \<and> state_of ag' dealer st')"
  using assms
proof (induction ag deck dealer st choice rnd k rule: agent_turn.induct)
  case (1 ag deck dealer st choice rnd k)
  show ?case
  proof (cases "busted ag")
    case True
    with "1.prems" show ?thesis by (simp add: agent_turn.simps [of ag])
  next
    case nb: False
    show ?thesis
    proof (cases "choose_action ag st (fst (rnd k)) (snd (rnd k)) = Stand")
      case True
      with nb "1.prems" show ?thesis by (auto simp: agent_turn.simps [of ag])
    next
      case ns: False
      from "1.prems"(1) nb ns obtain ag1 deck1 ag2 where
        h: "hit ag deck = Inr (ag1, deck1)" and b: "is_busted ag1 = Inr ag2"
        by (subst (asm) agent_turn.simps) (auto split: sum.splits)
      show ?thesis
      proof (cases "busted ag2")
        case True
        with "1.prems"(1) nb ns h b
        have r: "agent_turn (update_q_value ag2 st Hit (- 1) None) deck1 dealer None (Some Hit) rnd (Suc k)
                = Inr (ag', deck', st', choice')"
          by (subst (asm) agent_turn.simps) simp
        show ?thesis
          using "1.IH"(1) [OF nb ns h refl b True r] True by simp
      next
        case False
        with "1.prems"(1) nb ns h b obtain t c0 rest nxt where
          t: "get_hand_sum ag2 = Inr t" and c: "hand dealer = c0 # rest"
          and g: "get_state t c0 = Inr nxt"
          and r: "agent_turn (update_q_value ag2 st Hit 1 nxt) deck1 dealer nxt (Some Hit) rnd (Suc k)
                = Inr (ag', deck', st', choice')"
          by (subst (asm) agent_turn.simps) (auto split: sum.splits list.splits)
        have s: "state_of (update_q_value ag2 st Hit 1 nxt) dealer nxt"
          using t c g by (auto simp: state_of_def)
        show ?thesis
          using "1.IH"(2) [OF nb ns h refl b False t c g r] s False
          by simp
      qed
    qed
  qed
qed


lemma hit_result:
  "hit p d = Inr (p', d') \<Longrightarrow>
     \<exists>c. cards d = c # cards d' \<and> p' = p\<lparr>hand := hand p @ [c]\<rparr> \<and> d' = d\<lparr>cards := cards d'\<rparr>"
  by (auto simp: hit_def deal_card_def split: list.splits)

lemma deal_result:
  assumes "deal ag deck = Inr (ag2, d4, dealer, st0)"
  shows "\<not> busted ag2 \<and> q_table ag2 = q_table ag \<and> alpha ag2 = alpha ag \<and> gamma ag2 = gamma ag
       \<and> epsilon ag2 = epsilon ag \<and> state_of ag2 dealer st0
       \<and> (\<exists>c1 c2 c3 c4. cards deck = c1 # c2 # c3 # c4 # cards d4
             \<and> hand ag2 = [c1, c2] \<and> hand dealer = [c3, c4])"
proof -
  from assms obtain ag1 d1 d2 dl1 d3 t c0 rest where
    h1: "hit (ag\<lparr>hand := [], busted := False\<rparr>) deck = Inr (ag1, d1)"
    and h2: "hit ag1 d1 = Inr (ag2, d2)"
    and h3: "hit Player_init d2 = Inr (dl1, d3)"
    and h4: "hit dl1 d3 = Inr (dealer, d4)"
    and t: "get_hand_sum ag2 = Inr t" and c: "hand dealer = c0 # rest"
    and g: "get_state t c0 = Inr st0"
    unfolding deal_def by (auto split: sum.splits list.splits)
  from hit_result [OF h1] hit_result [OF h2] hit_result [OF h3] hit_result [OF h4] t c g
  show ?thesis
    by (auto simp: state_of_def Player_init_def)
qed



lemma decay_player [simp]:
  "busted (decay_exploration ag d) = busted ag" "hand (decay_exploration ag d) = hand ag"
  by (simp_all add: decay_exploration_def)


text \<open>
  An episode raises nothing. A hand of cards of the deck has a total of at least its
  length, so a hand that is not bust has at most 21 cards and the deck of 52 cannot run
  out.
\<close>

lemma adjust_aces_ge: "hs - 10 * int a \<le> adjust_aces hs a"
proof (induction a arbitrary: hs)
  case 0
  then show ?case by simp
next
  case (Suc a)
  show ?case using Suc.IH [of "hs - 10"] by auto
qed

lemma card_points_ranks_pos:
  assumes "rank c \<in> set ranks"
  shows "\<exists>v k. card_points c = Some (v, k) \<and> 10 * int k < v"
  using assms by (auto simp: ranks_def card_points_def rank_points_def py_int_ranks isalpha_ranks)

lemma hard_total_ge_length:
  assumes "\<forall>c\<in>set h. rank c \<in> set ranks"
  shows "int (length h)
           \<le> sum_list (map (\<lambda>c. fst (the (card_points c))) h)
              - 10 * int (sum_list (map (\<lambda>c. snd (the (card_points c))) h))"
  using assms
proof (induction h)
  case Nil
  then show ?case by simp
next
  case (Cons c h)
  from Cons.prems obtain v k where "card_points c = Some (v, k)" "10 * int k < v"
    using card_points_ranks_pos [of c] by auto
  with Cons show ?case by simp
qed

lemma hand_sum_of_deck_cards:
  assumes "\<forall>c\<in>set h. rank c \<in> set ranks"
  shows "\<exists>t. hand_sum_of h = Inr t \<and> int (length h) \<le> t"
proof -
  have ok: "list_all (\<lambda>c. card_points c \<noteq> None) h"
    unfolding list_all_iff
  proof
    fix c assume "c \<in> set h"
    with assms have "rank c \<in> set ranks" by simp
    from card_points_ranks_pos [OF this] show "card_points c \<noteq> None" by auto
  qed
  let ?v = "sum_list (map (\<lambda>c. fst (the (card_points c))) h)"
  let ?k = "sum_list (map (\<lambda>c. snd (the (card_points c))) h)"
  have "hand_sum_of h = Inr (adjust_aces ?v ?k)"
    using ok by (simp add: hand_sum_of_def sum_cards_points)
  moreover have "int (length h) \<le> adjust_aces ?v ?k"
    using hard_total_ge_length [OF assms] adjust_aces_ge [of ?v ?k] by linarith
  ultimately show ?thesis by blast
qed

lemma get_state_deck_card:
  assumes "rank c \<in> set ranks"
  shows "\<exists>v. get_state t c = Inr (Some (t, v))"
  using assms by (auto simp: ranks_def get_state_def py_int_ranks isalpha_ranks)

lemma agent_turn_total:
  assumes "\<forall>c\<in>set (hand ag) \<union> set (cards deck). rank c \<in> set ranks"
    and "hand dealer = c0 # rest" and "rank c0 \<in> set ranks"
    and "\<not> busted ag \<longrightarrow> length (hand ag) \<le> 21"
    and "22 \<le> length (hand ag) + length (cards deck)"
  shows "\<exists>res. agent_turn ag deck dealer st choice rnd k = Inr res"
  using assms
proof (induction ag deck dealer st choice rnd k rule: agent_turn.induct)
  case (1 ag deck dealer st choice rnd k)
  show ?case
  proof (cases "busted ag \<or> choose_action ag st (fst (rnd k)) (snd (rnd k)) = Stand")
    case True
    then show ?thesis by (subst agent_turn.simps) auto
  next
    case False
    then have nb: "\<not> busted ag"
      and ns: "choose_action ag st (fst (rnd k)) (snd (rnd k)) \<noteq> Stand" by simp_all
    from nb "1.prems"(4,5) obtain c deck1 where
      cd: "cards deck = c # cards deck1" and d1: "deck1 = deck\<lparr>cards := cards deck1\<rparr>"
      by (cases "cards deck") (auto intro: that [of _ "deck\<lparr>cards := tl (cards deck)\<rparr>"])
    let ?ag1 = "ag\<lparr>hand := hand ag @ [c]\<rparr>"
    have h: "hit ag deck = Inr (?ag1, deck1)"
      using cd d1 by (simp add: hit_def deal_card_def)
    have canon1: "\<forall>c\<in>set (hand ?ag1). rank c \<in> set ranks"
      using "1.prems"(1) cd by auto
    from hand_sum_of_deck_cards [OF canon1] obtain t where
      t: "get_hand_sum ?ag1 = Inr t" and tl: "int (length (hand ?ag1)) \<le> t"
      by (auto simp: get_hand_sum_def)
    let ?ag2 = "if t > 21 then ?ag1\<lparr>busted := True\<rparr> else ?ag1"
    have b: "is_busted ?ag1 = Inr ?ag2"
      using t by (simp add: is_busted_def)
    have hand2: "hand ?ag2 = hand ag @ [c]" by simp
    have canon: "\<forall>x\<in>set (hand ?ag2) \<union> set (cards deck1). rank x \<in> set ranks"
      using "1.prems"(1) cd by auto
    have len: "22 \<le> length (hand ?ag2) + length (cards deck1)"
      using "1.prems"(5) cd by simp
    show ?thesis
    proof (cases "busted ?ag2")
      case True
      have "\<exists>res. agent_turn (update_q_value ?ag2 st Hit (- 1) None) deck1 dealer None
                    (Some Hit) rnd (Suc k) = Inr res"
        using canon len True "1.prems"(2,3)
        by (intro "1.IH"(1) [OF nb ns h refl b True]) simp_all
      then show ?thesis
        using nb ns h b True by (subst agent_turn.simps) simp
    next
      case nb2: False
      then have t21: "t \<le> 21" using nb by (auto split: if_splits)
      have t2: "get_hand_sum ?ag2 = Inr t"
        using t by (simp add: get_hand_sum_def)
      from get_state_deck_card [OF "1.prems"(3)] obtain v where
        g: "get_state t c0 = Inr (Some (t, v))" by blast
      have l21: "length (hand ?ag2) \<le> 21" using tl t21 by simp
      have "\<exists>res. agent_turn (update_q_value ?ag2 st Hit 1 (Some (t, v))) deck1 dealer
                    (Some (t, v)) (Some Hit) rnd (Suc k) = Inr res"
        using canon len l21 "1.prems"(2,3)
        by (intro "1.IH"(2) [OF nb ns h refl b nb2 t2 "1.prems"(2) g]) simp_all
      then show ?thesis
        using nb ns h b nb2 t2 "1.prems"(2) g by (subst agent_turn.simps) simp
    qed
  qed
qed

lemma deal_total:
  assumes "cards deck = c1 # c2 # c3 # c4 # rest"
    and "\<forall>c\<in>set (cards deck). rank c \<in> set ranks"
  shows "\<exists>ag2 d4 dealer st0. deal ag deck = Inr (ag2, d4, dealer, st0)"
proof -
  have "\<forall>c\<in>set [c1, c2]. rank c \<in> set ranks" using assms by simp
  from hand_sum_of_deck_cards [OF this] obtain t where t: "hand_sum_of [c1, c2] = Inr t"
    by blast
  have "rank c3 \<in> set ranks" using assms by simp
  from get_state_deck_card [OF this] obtain v where g: "get_state t c3 = Inr (Some (t, v))"
    by blast
  show ?thesis
    using assms(1) t g
    by (simp add: deal_def hit_def deal_card_def Player_init_def get_hand_sum_def)
qed

lemma list_Suc_le:
  assumes "Suc n \<le> length xs"
  obtains y ys where "xs = y # ys" and "n \<le> length ys"
  using assms by (cases xs) auto

lemma play_round_total:
  assumes "24 \<le> length (cards deck)"
    and "\<forall>c\<in>set (cards deck). rank c \<in> set ranks"
  shows "\<exists>res. play_round ag choice deck rnd = Inr res"
proof -
  from assms(1) have "Suc 23 \<le> length (cards deck)" by simp
  then obtain c1 r1 where e1: "cards deck = c1 # r1" and "23 \<le> length r1"
    by (rule list_Suc_le)
  then have "Suc 22 \<le> length r1" by simp
  then obtain c2 r2 where e2: "r1 = c2 # r2" and "22 \<le> length r2"
    by (rule list_Suc_le)
  then have "Suc 21 \<le> length r2" by simp
  then obtain c3 r3 where e3: "r2 = c3 # r3" and "21 \<le> length r3"
    by (rule list_Suc_le)
  then have "Suc 20 \<le> length r3" by simp
  then obtain c4 rest where e4: "r3 = c4 # rest" and "20 \<le> length rest"
    by (rule list_Suc_le)
  from e1 e2 e3 e4 have cs: "cards deck = c1 # c2 # c3 # c4 # rest" by simp
  from deal_total [OF cs assms(2)] obtain ag2 d4 dealer st0 where
    d: "deal ag deck = Inr (ag2, d4, dealer, st0)" by blast
  note dr = deal_result [OF d]
  from dr cs have ha: "hand ag2 = [c1, c2]" and hd: "hand dealer = [c3, c4]"
    and c4: "cards d4 = rest" by auto
  have canon: "\<forall>c\<in>set (hand ag2) \<union> set (cards d4). rank c \<in> set ranks"
    using assms(2) cs ha c4 by auto
  have r3: "rank c3 \<in> set ranks" using assms(2) cs by simp
  have len: "22 \<le> length (hand ag2) + length (cards d4)"
    using assms(1) cs ha c4 by simp
  have l21: "\<not> busted ag2 \<longrightarrow> length (hand ag2) \<le> 21" using ha by simp
  from agent_turn_total [OF canon hd r3 l21 len, of st0 choice rnd 0]
  obtain ag3 d5 st choice' where
    a: "agent_turn ag2 d4 dealer st0 choice rnd 0 = Inr (ag3, d5, st, choice')"
    by (metis prod_cases4)
  from dr have nb2: "\<not> busted ag2" and so: "state_of ag2 dealer st0" by simp_all
  from agent_turn_result [OF a] nb2 so
  have st: "\<not> busted ag3 \<longrightarrow> choice' = Some Stand \<and> state_of ag3 dealer st"
    by simp
  have "\<forall>c\<in>set [c3, c4]. rank c \<in> set ranks" using assms(2) cs by simp
  from hand_sum_of_deck_cards [OF this] hd obtain dt where dt: "get_hand_sum dealer = Inr dt"
    by (auto simp: get_hand_sum_def)
  have "\<exists>ag4. settle ag3 dealer st choice' = Inr ag4"
  proof (cases "busted ag3")
    case True
    then show ?thesis by (simp add: settle_def)
  next
    case False
    with st obtain pt where "choice' = Some Stand" "get_hand_sum ag3 = Inr pt"
      by (auto simp: state_of_def)
    with False dt show ?thesis by (simp add: settle_def)
  qed
  then show ?thesis using d a by (auto simp: play_round_def)
qed

lemma shuffled_deck_cards:
  "length (cards (shuffle_deck rj Deck_init)) = 52
   \<and> (\<forall>c\<in>set (cards (shuffle_deck rj Deck_init)). rank c \<in> set ranks)"
proof -
  have m: "mset (cards (shuffle_deck rj Deck_init)) = mset (cards Deck_init)"
    by (simp add: shuffle_deck_def shuffle_from_mset Deck_init_length)
  then have "length (cards (shuffle_deck rj Deck_init)) = 52"
    using Deck_init_length by (metis size_mset)
  moreover have "set (cards (shuffle_deck rj Deck_init)) = set (cards Deck_init)"
    using m by (rule mset_eq_setD)
  ultimately show ?thesis by (simp add: Deck_init_set)
qed

lemma episode_total: "\<exists>res. episode ag choice rj rnd = Inr res"
  unfolding episode_def using shuffled_deck_cards [of rj]
  by (intro play_round_total) simp_all

lemma train_episodes_total: "\<exists>ag'. train_episodes ag choice outcomes = Inr ag'"
proof (induction outcomes arbitrary: ag choice)
  case Nil
  then show ?case by simp
next
  case (Cons x outcomes)
  obtain rj rnd where o: "x = (rj, rnd)" by (cases x)
  from episode_total [of ag choice rj rnd] obtain ag1 ch1 dl dk where
    "episode ag choice rj rnd = Inr (ag1, ch1, dl, dk)" by (metis prod_cases4)
  with Cons.IH [of ag1 ch1] o show ?case by simp
qed

lemma deal_example:
  "deal (AI_Player_init (3 / 10) (95 / 100) 1) Deck_init =
     Inr ((AI_Player_init (3 / 10) (95 / 100) 1)
            \<lparr>hand := [\<lparr>rank = ''2'', suit = Spades\<rparr>, \<lparr>rank = ''3'', suit = Spades\<rparr>]\<rparr>,
          \<lparr>cards = drop 4 (cards Deck_init)\<rparr>,
          \<lparr>busted = False, hand = [\<lparr>rank = ''4'', suit = Spades\<rparr>, \<lparr>rank = ''5'', suit = Spades\<rparr>]\<rparr>,
          Some (5, 4))"
  by (simp add: deal_def Deck_init_def suits_def ranks_def hit_def deal_card_def
      AI_Player_init_def Player_init_def get_hand_sum_def hand_sum_of_def get_state_def
      py_int_ranks isalpha_ranks)

lemma episode_example:
  "episode (AI_Player_init (3 / 10) (95 / 100) 1) None (\<lambda>i. i) (\<lambda>k. (1 / 2, Stand)) =
     Inr ((AI_Player_init (3 / 10) (95 / 100) 1)
            \<lparr>hand := [\<lparr>rank = ''2'', suit = Spades\<rparr>, \<lparr>rank = ''3'', suit = Spades\<rparr>],
             q_table := [Some (5, 4) \<mapsto> (0, - (3 / 20))],
             epsilon := 9999 / 10000\<rparr>,
          Some Stand,
          \<lparr>busted = False, hand = [\<lparr>rank = ''4'', suit = Spades\<rparr>, \<lparr>rank = ''5'', suit = Spades\<rparr>]\<rparr>,
          \<lparr>cards = drop 4 (cards Deck_init)\<rparr>)"
proof -
  let ?ag2 = "(AI_Player_init (3 / 10) (95 / 100) 1)
            \<lparr>hand := [\<lparr>rank = ''2'', suit = Spades\<rparr>, \<lparr>rank = ''3'', suit = Spades\<rparr>]\<rparr>"
  let ?dealer = "\<lparr>busted = False,
        hand = [\<lparr>rank = ''4'', suit = Spades\<rparr>, \<lparr>rank = ''5'', suit = Spades\<rparr>]\<rparr>"
  let ?d4 = "\<lparr>cards = drop 4 (cards Deck_init)\<rparr>"
  have a: "agent_turn ?ag2 ?d4 ?dealer (Some (5, 4)) None (\<lambda>k. (1 / 2, Stand)) 0
             = Inr (?ag2, ?d4, Some (5, 4), Some Stand)"
    by (simp add: agent_turn.simps choose_action_def AI_Player_init_def)
  have s: "settle ?ag2 ?dealer (Some (5, 4)) (Some Stand)
             = Inr (?ag2\<lparr>q_table := [Some (5, 4) \<mapsto> (0, - (3 / 20))]\<rparr>)"
    by (simp add: settle_def update_q_value_def next_max_of_def q_lookup_def Let_def
        AI_Player_init_def get_hand_sum_def hand_sum_of_def py_int_ranks isalpha_ranks)
  have e: "decay_exploration (?ag2\<lparr>q_table := [Some (5, 4) \<mapsto> (0, - (3 / 20))]\<rparr>) (9999 / 10000)
             = (AI_Player_init (3 / 10) (95 / 100) 1)
            \<lparr>hand := [\<lparr>rank = ''2'', suit = Spades\<rparr>, \<lparr>rank = ''3'', suit = Spades\<rparr>],
             q_table := [Some (5, 4) \<mapsto> (0, - (3 / 20))],
             epsilon := 9999 / 10000\<rparr>"
    by (simp add: decay_exploration_def AI_Player_init_def)
  show ?thesis
    by (simp only: episode_def shuffle_deck_id play_round_def deal_example sum.case prod.case
        a s e)
qed


text \<open>
  C2. The claim is that, once the agent stands, the dealer draws while its predicate
  says so, before the totals are compared. In \<^verbatim>\<open>train_module\<close> every episode ends
  with the dealer holding the two cards of the deal: with the deck in its initial order
  the agent stands on 5, the dealer's total is 9 and its predicate says draw, yet the
  comparison is made (9 against 5, reward \<open>- 0.5\<close>) and no card is drawn.
  \<^verbatim>\<open>play_game\<close> has the dealer's loop; the training loop does not.
\<close>

theorem dealer_never_draws_in_training:
  "(case episode ag choice rj rnd of
      Inl e \<Rightarrow> False
    | Inr (ag', choice', dealer, deck') \<Rightarrow> length (hand dealer) = 2)
   \<and> episode (AI_Player_init (3 / 10) (95 / 100) 1) None (\<lambda>i. i) (\<lambda>k. (1 / 2, Stand)) =
       Inr ((AI_Player_init (3 / 10) (95 / 100) 1)
              \<lparr>hand := [\<lparr>rank = ''2'', suit = Spades\<rparr>, \<lparr>rank = ''3'', suit = Spades\<rparr>],
               q_table := [Some (5, 4) \<mapsto> (0, - (3 / 20))],
               epsilon := 9999 / 10000\<rparr>,
            Some Stand,
            \<lparr>busted = False,
               hand = [\<lparr>rank = ''4'', suit = Spades\<rparr>, \<lparr>rank = ''5'', suit = Spades\<rparr>]\<rparr>,
            \<lparr>cards = drop 4 (cards Deck_init)\<rparr>)
   \<and> get_hand_sum \<lparr>busted = False,
         hand = [\<lparr>rank = ''4'', suit = Spades\<rparr>, \<lparr>rank = ''5'', suit = Spades\<rparr>]\<rparr> = Inr 9
   \<and> should_hit \<lparr>busted = False,
         hand = [\<lparr>rank = ''4'', suit = Spades\<rparr>, \<lparr>rank = ''5'', suit = Spades\<rparr>]\<rparr> = Inr True"
proof -
  obtain ag' choice' dealer deck' where
    e: "episode ag choice rj rnd = Inr (ag', choice', dealer, deck')"
    using episode_total [of ag choice rj rnd] by (metis prod_cases4)
  then obtain ag2 d4 st0 where "deal ag (shuffle_deck rj Deck_init) = Inr (ag2, d4, dealer, st0)"
    unfolding episode_def play_round_def by (auto split: sum.splits)
  from deal_result [OF this] have "length (hand dealer) = 2" by auto
  with e have g: "(case episode ag choice rj rnd of
      Inl e \<Rightarrow> False
    | Inr (ag', choice', dealer, deck') \<Rightarrow> length (hand dealer) = 2)" by simp
  have v: "get_hand_sum \<lparr>busted = False,
         hand = [\<lparr>rank = ''4'', suit = Spades\<rparr>, \<lparr>rank = ''5'', suit = Spades\<rparr>]\<rparr> = Inr 9"
    by (simp add: get_hand_sum_def hand_sum_of_def py_int_ranks isalpha_ranks)
  then have "should_hit \<lparr>busted = False,
         hand = [\<lparr>rank = ''4'', suit = Spades\<rparr>, \<lparr>rank = ''5'', suit = Spades\<rparr>]\<rparr> = Inr True"
    by (simp add: should_hit_def)
  with g v episode_example show ?thesis by simp
qed



end
